theory Spec2Isabelle
  imports Main
begin

section \<open>Python string primitives used by the service\<close>

text \<open>
  A Python \<open>str\<close> is a sequence of characters. Which characters are whitespace for
  \<open>str.split()\<close> and \<open>str.strip()\<close>, and what \<open>str.upper()\<close> makes of a
  character (one character or several, as for the sharp s), is decided by the
  interpreter's Unicode tables, which are no part of the repository. The text functions
  take the tables as a parameter and are written for any type \<open>'c\<close> of characters:
  \<open>isspace\<close> and \<open>upper_of\<close> are the tables, \<open>chr\<close> gives the character that an
  ASCII character of a source literal denotes.
\<close>

record 'c unicode =
  isspace :: "'c \<Rightarrow> bool"
  upper_of :: "'c \<Rightarrow> 'c list"
  chr :: "char \<Rightarrow> 'c"

text \<open>A string literal of the source, and \<open>str.upper()\<close>.\<close>

definition lit :: "'c unicode \<Rightarrow> string \<Rightarrow> 'c list" where
  "lit u s = map (chr u) s"

definition upper :: "'c unicode \<Rightarrow> 'c list \<Rightarrow> 'c list" where
  "upper u s = concat (map (upper_of u) s)"

text \<open>
  \<open>str.split()\<close> without arguments: runs of whitespace separate the words, and
  no empty word is produced. The second argument is the word read so far.
\<close>

fun split_from :: "('c \<Rightarrow> bool) \<Rightarrow> 'c list \<Rightarrow> 'c list \<Rightarrow> 'c list list" where
  "split_from sp w [] = (if w = [] then [] else [w])"
| "split_from sp w (c # cs) =
     (if sp c then (if w = [] then split_from sp [] cs else w # split_from sp [] cs)
      else split_from sp (w @ [c]) cs)"

definition split :: "'c unicode \<Rightarrow> 'c list \<Rightarrow> 'c list list" where
  "split u s = split_from (isspace u) [] s"

text \<open>\<open>sep.join(words)\<close>.\<close>

fun join :: "'c list \<Rightarrow> 'c list list \<Rightarrow> 'c list" where
  "join sep [] = []"
| "join sep [w] = w"
| "join sep (w # ws) = w @ sep @ join sep ws"

text \<open>\<open>str.strip()\<close> without arguments.\<close>

definition strip :: "'c unicode \<Rightarrow> 'c list \<Rightarrow> 'c list" where
  "strip u s = rev (dropWhile (isspace u) (rev (dropWhile (isspace u) s)))"

text \<open>\<open>s.endswith(suffix)\<close>, and its form with a tuple of suffixes.\<close>

definition endswith :: "'c list \<Rightarrow> 'c list \<Rightarrow> bool" where
  "endswith s suf = (length suf \<le> length s \<and> drop (length s - length suf) s = suf)"

definition endswith_any :: "'c list \<Rightarrow> 'c list list \<Rightarrow> bool" where
  "endswith_any s sufs = list_ex (endswith s) sufs"

text \<open>
  File names and paths are \<open>string\<close>s. \<open>str.lower()\<close> is applied to them only to
  compare extensions, and it is written for the 26 ASCII letters.
\<close>

definition lower_char :: "char \<Rightarrow> char" where
  "lower_char c = (let n = (of_char c :: nat) in if 65 \<le> n \<and> n \<le> 90 then char_of (n + 32) else c)"

definition lower :: "string \<Rightarrow> string" where
  "lower s = map lower_char s"

section \<open>The text normalizer (app/services/audio_processor.py)\<close>

text \<open>
  \<open>clean_text\<close>. The argument is \<open>None\<close> or a \<open>str\<close>: the guard
  \<open>if not text\<close> returns the empty string for both \<open>None\<close> and the empty string.
\<close>

definition clean_text :: "'c unicode \<Rightarrow> 'c list option \<Rightarrow> 'c list" where
  "clean_text u text =
     (case text of
        None \<Rightarrow> []
      | Some t0 \<Rightarrow>
          if t0 = [] then []
          else
            let t1 = join (lit u '' '') (split u t0);
                t2 = strip u t1
            in (case t2 of
                  [] \<Rightarrow> t2
                | c # cs \<Rightarrow>
                    let t3 = upper u [c] @ cs
                    in if \<not> endswith_any t3 [lit u ''.'', lit u ''!'', lit u ''?'']
                       then t3 @ lit u ''.'' else t3))"

section \<open>Paths and storage\<close>

text \<open>
  \<open>str.rfind(c)\<close> for a single character: the index of its last occurrence, or -1.
  The scan carries the current index and the last index found.
\<close>

fun rfind_from :: "char \<Rightarrow> string \<Rightarrow> int \<Rightarrow> int \<Rightarrow> int" where
  "rfind_from c [] i found = found"
| "rfind_from c (x # xs) i found = rfind_from c xs (i + 1) (if x = c then i else found)"

definition rfind :: "char \<Rightarrow> string \<Rightarrow> int" where
  "rfind c p = rfind_from c p 0 (- 1)"

text \<open>
  \<open>os.path.splitext\<close> (POSIX): the extension starts at the last dot of the last path
  component, unless that component has only dots before it. The library's loop over
  \<open>p[sepIndex+1 : dotIndex]\<close> returns the split at the first character that is not a
  dot; \<open>list_ex\<close> over that slice is the same test.
\<close>

definition splitext :: "string \<Rightarrow> string \<times> string" where
  "splitext p =
     (let sepIndex = rfind CHR ''/'' p;
          dotIndex = rfind CHR ''.'' p
      in if dotIndex > sepIndex \<and>
            list_ex (\<lambda>c. c \<noteq> CHR ''.'')
              (take (nat (dotIndex - (sepIndex + 1))) (drop (nat (sepIndex + 1)) p))
         then (take (nat dotIndex) p, drop (nat dotIndex) p)
         else (p, []))"

text \<open>\<open>os.path.join\<close> of two components (POSIX).\<close>

definition path_join :: "string \<Rightarrow> string \<Rightarrow> string" where
  "path_join a b =
     (if b \<noteq> [] \<and> hd b = CHR ''/'' then b
      else if a = [] \<or> endswith a ''/'' then a @ b
      else a @ ''/'' @ b)"

text \<open>
  Storage maps the path of each existing file to its bytes. \<open>os.path.exists\<close> and
  \<open>os.unlink\<close> are lookup and removal.
\<close>

type_synonym storage = "string \<rightharpoonup> string"

definition path_exists :: "storage \<Rightarrow> string \<Rightarrow> bool" where
  "path_exists fs p = (fs p \<noteq> None)"

definition unlink :: "storage \<Rightarrow> string \<Rightarrow> storage" where
  "unlink fs p = fs(p := None)"

section \<open>Errors\<close>

text \<open>
  An ordinary Python exception is its message (\<open>str(e)\<close>); the handlers raise
  \<open>HTTPException(status_code, detail)\<close>.
\<close>

type_synonym exn = string

datatype http_error = HTTPException nat string

fun status_code :: "http_error \<Rightarrow> nat" where
  "status_code (HTTPException c d) = c"

section \<open>The shared model instance (app/services/audio_processor.py)\<close>

text \<open>
  The module globals \<open>_model\<close> and \<open>_processor\<close> hold instance handles. Two further
  fields record effects of the code: the number of \<open>from_pretrained\<close> calls made, and
  the messages passed to the logger.
\<close>

record globals =
  g_model :: "nat option"
  g_processor :: "nat option"
  from_pretrained_calls :: nat
  logged :: "string list"

text \<open>What the model hub and the hardware answer during one call of \<open>load_glm_model\<close>.\<close>

record load_env =
  processor_result :: "exn + nat"
  model_result :: "exn + nat"
  cuda_available :: bool
  to_cuda_result :: "exn + nat"

definition loaded_msg :: string where
  "loaded_msg = ''GLM ASR Nano-2512 model loaded successfully''"

definition load_failed :: "exn \<Rightarrow> globals \<Rightarrow> (exn + nat \<times> nat) \<times> globals" where
  "load_failed e st = (Inl e, st\<lparr>logged := logged st @ [''Failed to load GLM ASR model: '' @ e]\<rparr>)"

definition load_glm_model :: "load_env \<Rightarrow> globals \<Rightarrow> (exn + nat \<times> nat) \<times> globals" where
  "load_glm_model env st =
     (if g_model st = None \<or> g_processor st = None then
        (let st0 = st\<lparr>from_pretrained_calls := from_pretrained_calls st + 1\<rparr>
         in case processor_result env of
              Inl e \<Rightarrow> load_failed e st0
            | Inr p \<Rightarrow>
                let st1 = st0\<lparr>g_processor := Some p,
                              from_pretrained_calls := from_pretrained_calls st0 + 1\<rparr>
                in (case model_result env of
                      Inl e \<Rightarrow> load_failed e st1
                    | Inr m \<Rightarrow>
                        let st2 = st1\<lparr>g_model := Some m\<rparr>
                        in if cuda_available env then
                             (case to_cuda_result env of
                                Inl e \<Rightarrow> load_failed e st2
                              | Inr m' \<Rightarrow>
                                  (Inr (m', p),
                                   st2\<lparr>g_model := Some m', logged := logged st2 @ [loaded_msg]\<rparr>))
                           else (Inr (m, p), st2\<lparr>logged := logged st2 @ [loaded_msg]\<rparr>)))
      else (Inr (the (g_model st), the (g_processor st)), st))"

section \<open>Format conversion and transcription (app/services/audio_processor.py)\<close>

text \<open>A decoded \<open>AudioSegment\<close>: channel count, frame rate and length in milliseconds.\<close>

record audio =
  channels :: nat
  frame_rate :: nat
  duration_ms :: nat

record metadata =
  md_language :: "string option"
  md_model :: string
  md_duration_ms :: nat
  md_sample_rate :: nat
  md_channels :: nat

text \<open>
  The libraries behind one call of \<open>transcribe_audio\<close>: the model load, the decoder
  of \<open>AudioSegment.from_file\<close> (from the bytes of a file), the encoder of
  \<open>AudioSegment.export\<close> (to a format), and the outcome of feature extraction,
  generation and decoding of the prediction.
\<close>

record asr_env =
  loader :: load_env
  decoder :: "string \<Rightarrow> exn + audio"
  encoder :: "audio \<Rightarrow> string \<Rightarrow> exn + string"
  inference :: "nat \<Rightarrow> nat \<Rightarrow> audio \<Rightarrow> exn + string"

definition from_file :: "asr_env \<Rightarrow> storage \<Rightarrow> string \<Rightarrow> exn + audio" where
  "from_file env fs p =
     (case fs p of
        None \<Rightarrow> Inl (''No such file or directory: '' @ p)
      | Some bytes \<Rightarrow> decoder env bytes)"

text \<open>
  \<open>convert_audio_format\<close>: decode, name the target beside the source, export; a
  failure is logged and re-raised. Its local \<open>temp_path\<close> is returned and otherwise
  lost with the frame of the call. An export that fails is taken to leave storage as it
  was.
\<close>

definition conversion_failed ::
  "exn \<Rightarrow> globals \<times> storage \<Rightarrow> (exn + string) \<times> globals \<times> storage" where
  "conversion_failed e s =
     (let (st, fs) = s
      in (Inl e, st\<lparr>logged := logged st @ [''Audio conversion failed: '' @ e]\<rparr>, fs))"

definition convert_audio_format ::
  "asr_env \<Rightarrow> string \<Rightarrow> string \<Rightarrow> globals \<times> storage \<Rightarrow> (exn + string) \<times> globals \<times> storage" where
  "convert_audio_format env audio_file_path target_format s =
     (let (st, fs) = s
      in case from_file env fs audio_file_path of
           Inl e \<Rightarrow> conversion_failed e s
         | Inr a \<Rightarrow>
             let temp_path = fst (splitext audio_file_path) @ ''.'' @ target_format
             in (case encoder env a target_format of
                   Inl e \<Rightarrow> conversion_failed e s
                 | Inr bytes \<Rightarrow> (Inr temp_path, st, fs(temp_path \<mapsto> bytes))))"

text \<open>
  The path-valued local variables of \<open>transcribe_audio\<close>, by name, as \<open>locals()\<close>
  shows them in the \<open>finally\<close> block. The function binds \<open>audio_file_path\<close> (its
  parameter, rebound after a conversion); its other locals hold no path and none of
  them is named \<open>temp_path\<close>.
\<close>

type_synonym locals = "string \<rightharpoonup> string"

text \<open>The \<open>try\<close> body of \<open>transcribe_audio\<close>, with the locals it leaves behind.\<close>

definition transcribe_body ::
  "asr_env \<Rightarrow> string \<Rightarrow> string option \<Rightarrow> globals \<times> storage \<Rightarrow>
     (exn + string \<times> metadata) \<times> locals \<times> globals \<times> storage" where
  "transcribe_body env audio_file_path language s =
     (let (st, fs) = s;
          vars = [''audio_file_path'' \<mapsto> audio_file_path]
      in case load_glm_model (loader env) st of
           (Inl e, st1) \<Rightarrow> (Inl e, vars, st1, fs)
         | (Inr (model, processor), st1) \<Rightarrow>
             (case (if \<not> endswith (lower audio_file_path) ''.wav''
                    then convert_audio_format env audio_file_path ''wav'' (st1, fs)
                    else (Inr audio_file_path, st1, fs)) of
                (Inl e, st2, fs1) \<Rightarrow> (Inl e, vars, st2, fs1)
              | (Inr path, st2, fs1) \<Rightarrow>
                  let vars1 = vars(''audio_file_path'' \<mapsto> path)
                  in (case from_file env fs1 path of
                        Inl e \<Rightarrow> (Inl e, vars1, st2, fs1)
                      | Inr a0 \<Rightarrow>
                          let a1 = (if channels a0 > 1 then a0\<lparr>channels := 1\<rparr> else a0);
                              a2 = (if frame_rate a1 \<noteq> 16000 then a1\<lparr>frame_rate := 16000\<rparr> else a1)
                          in (case inference env model processor a2 of
                                Inl e \<Rightarrow> (Inl e, vars1, st2, fs1)
                              | Inr transcription \<Rightarrow>
                                  (Inr (transcription,
                                        \<lparr>md_language = language,
                                         md_model = ''GLM-ASR-Nano-2512'',
                                         md_duration_ms = duration_ms a2,
                                         md_sample_rate = frame_rate a2,
                                         md_channels = channels a2\<rparr>),
                                   vars1, st2, fs1)))))"

text \<open>
  \<open>transcribe_audio\<close>: the body, the \<open>except\<close> clause (log and re-raise) and the
  \<open>finally\<close> clause, which unlinks \<open>locals()['temp_path']\<close> when that name is bound
  and the file exists.
\<close>

definition transcribe_audio ::
  "asr_env \<Rightarrow> string \<Rightarrow> string option \<Rightarrow> globals \<times> storage \<Rightarrow>
     (exn + string \<times> metadata) \<times> globals \<times> storage" where
  "transcribe_audio env audio_file_path language s =
     (let (r, vars, st1, fs1) = transcribe_body env audio_file_path language s;
          st2 = (case r of
                   Inl e \<Rightarrow> st1\<lparr>logged := logged st1 @ [''Transcription failed: '' @ e]\<rparr>
                 | Inr v \<Rightarrow> st1);
          fs2 = (case vars ''temp_path'' of
                   None \<Rightarrow> fs1
                 | Some temp_path \<Rightarrow>
                     if path_exists fs1 temp_path then unlink fs1 temp_path else fs1)
      in (r, st2, fs2))"

section \<open>Uploads (app/api/endpoints/audio.py)\<close>

text \<open>
  An \<open>UploadFile\<close>: the declared filename (which the framework may leave unset), the
  results of the reads still to come (a chunk of at most 1 MiB, or an error; a read after
  the last one returns no bytes), and whether \<open>close()\<close> has been called.
\<close>

record UploadFile =
  filename :: "string option"
  stream :: "(exn + string) list"
  closed :: bool

text \<open>What the file system answers while one upload is saved.\<close>

record disk_env =
  makedirs_error :: "exn option"
  open_error :: "exn option"
  write_error :: "nat \<Rightarrow> exn option"

definition UPLOAD_DIR :: string where
  "UPLOAD_DIR = ''uploads/audio''"

text \<open>
  The copy loop \<open>while chunk := await upload_file.read(...): buffer.write(chunk)\<close>:
  the bytes written so far, the reads left, and the error that stopped it, if any. The
  second argument counts the writes.
\<close>

fun write_chunks ::
  "(nat \<Rightarrow> exn option) \<Rightarrow> nat \<Rightarrow> (exn + string) list \<Rightarrow> string \<Rightarrow>
     string \<times> (exn + string) list \<times> exn option" where
  "write_chunks werr n [] written = (written, [], None)"
| "write_chunks werr n (Inl e # rest) written = (written, rest, Some e)"
| "write_chunks werr n (Inr chunk # rest) written =
     (if chunk = [] then (written, rest, None)
      else case werr n of
             Some e \<Rightarrow> (written, rest, Some e)
           | None \<Rightarrow> write_chunks werr (n + 1) rest (written @ chunk))"

text \<open>The \<open>try\<close> body of \<open>save_upload_file\<close>.\<close>

definition save_body ::
  "disk_env \<Rightarrow> UploadFile \<Rightarrow> string \<Rightarrow> storage \<Rightarrow> (exn + string) \<times> UploadFile \<times> storage" where
  "save_body env upload_file destination fs =
     (case makedirs_error env of
        Some e \<Rightarrow> (Inl e, upload_file, fs)
      | None \<Rightarrow>
          (case open_error env of
             Some e \<Rightarrow> (Inl e, upload_file, fs)
           | None \<Rightarrow>
               let (written, rest, err) = write_chunks (write_error env) 0 (stream upload_file) [];
                   fs1 = fs(destination \<mapsto> written);
                   uf1 = upload_file\<lparr>stream := rest\<rparr>
               in (case err of
                     Some e \<Rightarrow> (Inl e, uf1, fs1)
                   | None \<Rightarrow> (Inr destination, uf1, fs1))))"

text \<open>
  \<open>save_upload_file\<close>: on an exception the destination is unlinked if it exists and
  a 500 is raised; the \<open>finally\<close> clause closes the upload.
\<close>

definition save_upload_file ::
  "disk_env \<Rightarrow> UploadFile \<Rightarrow> string \<Rightarrow> storage \<Rightarrow>
     (http_error + string) \<times> UploadFile \<times> storage" where
  "save_upload_file env upload_file destination fs =
     (let (r, uf1, fs1) = save_body env upload_file destination fs;
          uf2 = uf1\<lparr>closed := True\<rparr>
      in case r of
           Inr d \<Rightarrow> (Inr d, uf2, fs1)
         | Inl e \<Rightarrow>
             (Inl (HTTPException 500 (''Failed to save file: '' @ e)), uf2,
              if path_exists fs1 destination then unlink fs1 destination else fs1))"

record transcription_response =
  tr_status :: string
  tr_text :: string
  tr_audio_path :: string
  tr_metadata :: metadata

record request_env =
  uuid4 :: string
  disk :: disk_env
  asr :: asr_env

definition allowed_extensions :: "string list" where
  "allowed_extensions = [''.wav'', ''.mp3'', ''.m4a'', ''.ogg'', ''.webm'']"

text \<open>
  \<open>transcribe_audio_file\<close>, the handler of \<open>POST /api/transcribe/\<close>. A filename
  that is not set makes \<open>.lower()\<close> raise, which the outer handler turns into a 500.
\<close>

definition transcribe_audio_file ::
  "request_env \<Rightarrow> UploadFile \<Rightarrow> string option \<Rightarrow> globals \<times> storage \<Rightarrow>
     (http_error + transcription_response) \<times> UploadFile \<times> globals \<times> storage" where
  "transcribe_audio_file env audio_file language s =
     (let (st, fs) = s
      in case filename audio_file of
           None \<Rightarrow>
             (Inl (HTTPException 500
                (''An unexpected error occurred: '' @ ''NoneType object has no attribute lower'')),
              audio_file, st, fs)
         | Some name \<Rightarrow>
             let file_ext = snd (splitext (lower name))
             in if file_ext \<notin> set allowed_extensions then
                  (Inl (HTTPException 400
                     ''Unsupported file format. Supported formats: WAV, MP3, M4A, OGG, WEBM''),
                   audio_file, st, fs)
                else
                  let file_path = path_join UPLOAD_DIR (uuid4 env @ file_ext)
                  in (case save_upload_file (disk env) audio_file file_path fs of
                        (Inl err, uf, fs1) \<Rightarrow> (Inl err, uf, st, fs1)
                      | (Inr d, uf, fs1) \<Rightarrow>
                          (case transcribe_audio (asr env) file_path language (st, fs1) of
                             (Inl e, st2, fs2) \<Rightarrow>
                               (Inl (HTTPException 500 (''Transcription failed: '' @ e)), uf, st2,
                                if path_exists fs2 file_path then unlink fs2 file_path else fs2)
                           | (Inr (text, md), st2, fs2) \<Rightarrow>
                               (Inr \<lparr>tr_status = ''success'', tr_text = text,
                                     tr_audio_path = file_path, tr_metadata = md\<rparr>,
                                uf, st2, fs2))))"

section \<open>Journal entries\<close>

text \<open>
  Modelled from the spec: app/models/journal.py and app/db/session.py are not among the
  sources. A journal entry has the fields of section 3 of the specification (the
  \<open>journal_entries\<close> table of src/main.py declares the same columns): identifier
  assigned on creation, owner, content, optional audio reference, creation time and
  update time, the latter refreshed on mutation. The session applies pending changes at
  \<open>commit\<close>, which may fail; \<open>rollback\<close> discards them.
\<close>

record JournalEntry =
  entry_id :: int
  user_id :: int
  content :: string
  audio_path :: "string option"
  created_at :: nat
  updated_at :: nat

record database =
  rows :: "JournalEntry list"
  next_id :: int

record db_env =
  commit_error :: "exn option"
  utcnow :: nat

datatype pyval = PyNone | PyStr string | PyInt int

text \<open>
  A call that unpacks the dictionary \<open>d\<close> as keywords and also passes the
  keyword \<open>k\<close> raises \<open>TypeError\<close> when \<open>d\<close> already has the key.
\<close>

definition call_kwargs :: "(string \<times> pyval) list \<Rightarrow> string \<Rightarrow> pyval \<Rightarrow> exn + (string \<times> pyval) list" where
  "call_kwargs d k v =
     (if k \<in> set (map fst d)
      then Inl (''got multiple values for keyword argument '' @ k)
      else Inr (d @ [(k, v)]))"

text \<open>
  Modelled from the spec: the constructor of the entry class, for the keywords the
  handlers pass (content, audio_path, user_id); the result has no identifier or
  timestamps yet.
\<close>

definition new_JournalEntry :: "(string \<times> pyval) list \<Rightarrow> exn + string \<times> string option \<times> int" where
  "new_JournalEntry kw =
     (case (map_of kw ''content'', map_of kw ''audio_path'', map_of kw ''user_id'') of
        (Some (PyStr c), Some PyNone, Some (PyInt u)) \<Rightarrow> Inr (c, None, u)
      | (Some (PyStr c), Some (PyStr a), Some (PyInt u)) \<Rightarrow> Inr (c, Some a, u)
      | _ \<Rightarrow> Inl ''invalid keyword arguments for JournalEntry'')"

text \<open>\<open>db.add(e); db.commit(); db.refresh(e)\<close>.\<close>

definition add_commit ::
  "db_env \<Rightarrow> string \<times> string option \<times> int \<Rightarrow> database \<Rightarrow> (exn + JournalEntry) \<times> database" where
  "add_commit env vals db =
     (case commit_error env of
        Some e \<Rightarrow> (Inl e, db)
      | None \<Rightarrow>
          let (c, a, u) = vals;
              e = \<lparr>entry_id = next_id db, user_id = u, content = c, audio_path = a,
                   created_at = utcnow env, updated_at = utcnow env\<rparr>
          in (Inr e, db\<lparr>rows := rows db @ [e], next_id := next_id db + 1\<rparr>))"

subsection \<open>Schemas (app/schemas/journal.py)\<close>

text \<open>
  \<open>JournalEntryCreate\<close>: \<open>content\<close> and \<open>user_id\<close> are required
  (\<open>Field(...)\<close>), \<open>audio_path\<close> defaults to \<open>None\<close>. Each argument of the
  constructor is \<open>None\<close> when the keyword is not passed.
\<close>

record JournalEntryCreate =
  jc_content :: string
  jc_audio_path :: "string option"
  jc_user_id :: int

definition field_required :: "string \<Rightarrow> exn" where
  "field_required f = ''1 validation error for JournalEntryCreate: '' @ f @ '' field required''"

definition new_JournalEntryCreate ::
  "string option \<Rightarrow> string option option \<Rightarrow> int option \<Rightarrow> exn + JournalEntryCreate" where
  "new_JournalEntryCreate content_kw audio_path_kw user_id_kw =
     (case content_kw of
        None \<Rightarrow> Inl (field_required ''content'')
      | Some c \<Rightarrow>
          (case user_id_kw of
             None \<Rightarrow> Inl (field_required ''user_id'')
           | Some u \<Rightarrow>
               Inr \<lparr>jc_content = c,
                    jc_audio_path = (case audio_path_kw of None \<Rightarrow> None | Some a \<Rightarrow> a),
                    jc_user_id = u\<rparr>))"

definition opt_pyval :: "string option \<Rightarrow> pyval" where
  "opt_pyval a = (case a of None \<Rightarrow> PyNone | Some x \<Rightarrow> PyStr x)"

definition dict_of :: "JournalEntryCreate \<Rightarrow> (string \<times> pyval) list" where
  "dict_of j =
     [(''content'', PyStr (jc_content j)), (''audio_path'', opt_pyval (jc_audio_path j)),
      (''user_id'', PyInt (jc_user_id j))]"

subsection \<open>Journal handlers (app/api/endpoints/audio.py)\<close>

text \<open>
  The part shared by both creating handlers: build the schema object, build the entry
  from the unpacked \<open>journal_data.dict()\<close> and \<open>user_id=1\<close>, add and commit.
\<close>

definition persist_new ::
  "db_env \<Rightarrow> string \<Rightarrow> string option \<Rightarrow> database \<Rightarrow> (exn + JournalEntry) \<times> database" where
  "persist_new env text_content path db =
     (case new_JournalEntryCreate (Some text_content) (Some path) None of
        Inl e \<Rightarrow> (Inl e, db)
      | Inr journal_data \<Rightarrow>
          (case call_kwargs (dict_of journal_data) ''user_id'' (PyInt 1) of
             Inl e \<Rightarrow> (Inl e, db)
           | Inr kw \<Rightarrow>
               (case new_JournalEntry kw of
                  Inl e \<Rightarrow> (Inl e, db)
                | Inr vals \<Rightarrow> add_commit env vals db)))"

definition create_failed :: "exn \<Rightarrow> http_error" where
  "create_failed e = HTTPException 500 (''Failed to create journal entry: '' @ e)"

text \<open>
  \<open>create_journal_from_text\<close>, the handler of \<open>POST /api/journal/text/\<close>. Its
  first argument is the Unicode tables that \<open>clean_text\<close> consults.
\<close>

definition create_journal_from_text ::
  "char unicode \<Rightarrow> db_env \<Rightarrow> string \<Rightarrow> database \<Rightarrow> (http_error + JournalEntry) \<times> database" where
  "create_journal_from_text u env content_arg db =
     (let cleaned_text = clean_text u (Some content_arg)
      in case persist_new env cleaned_text None db of
           (Inl e, db1) \<Rightarrow> (Inl (create_failed e), db)
         | (Inr db_journal, db1) \<Rightarrow> (Inr db_journal, db1))"

text \<open>\<open>create_journal_from_audio\<close>, the handler of \<open>POST /api/journal/audio/\<close>.\<close>

definition create_journal_from_audio ::
  "request_env \<Rightarrow> db_env \<Rightarrow> UploadFile \<Rightarrow> database \<times> globals \<times> storage \<Rightarrow>
     (http_error + JournalEntry) \<times> UploadFile \<times> database \<times> globals \<times> storage" where
  "create_journal_from_audio env denv audio_file s =
     (let (db, st, fs) = s
      in case transcribe_audio_file env audio_file (Some ''en'') (st, fs) of
           (Inl err, uf, st1, fs1) \<Rightarrow> (Inl err, uf, db, st1, fs1)
         | (Inr transcription, uf, st1, fs1) \<Rightarrow>
             if tr_status transcription \<noteq> ''success'' then
               (Inl (HTTPException 400 ''Failed to transcribe audio''), uf, db, st1, fs1)
             else
               (case persist_new denv (tr_text transcription)
                       (Some (tr_audio_path transcription)) db of
                  (Inl e, db1) \<Rightarrow> (Inl (create_failed e), uf, db, st1, fs1)
                | (Inr db_journal, db1) \<Rightarrow> (Inr db_journal, uf, db1, st1, fs1)))"

record retranscribe_response =
  rr_status :: string
  rr_journal_id :: int
  rr_text :: string
  rr_metadata :: metadata

text \<open>
  \<open>transcribe_existing_journal_audio\<close>, the handler of
  \<open>GET /api/journal/{journal_id}/transcribe\<close>. The query takes the first entry with
  the identifier; \<open>not journal.audio_path\<close> holds for \<open>None\<close> and for the empty
  string. The committed update sets the content of the entry with that identifier and
  refreshes its update time.
\<close>

definition update_content :: "int \<Rightarrow> string \<Rightarrow> nat \<Rightarrow> JournalEntry \<Rightarrow> JournalEntry" where
  "update_content journal_id new_text t e =
     (if entry_id e = journal_id then e\<lparr>content := new_text, updated_at := t\<rparr> else e)"

definition transcribe_existing_journal_audio ::
  "asr_env \<Rightarrow> db_env \<Rightarrow> int \<Rightarrow> database \<times> globals \<times> storage \<Rightarrow>
     (http_error + retranscribe_response) \<times> database \<times> globals \<times> storage" where
  "transcribe_existing_journal_audio env denv journal_id s =
     (let (db, st, fs) = s
      in case find (\<lambda>e. entry_id e = journal_id) (rows db) of
           None \<Rightarrow> (Inl (HTTPException 404 ''Journal entry not found''), db, st, fs)
         | Some journal \<Rightarrow>
             (case (case audio_path journal of
                      None \<Rightarrow> None
                    | Some p \<Rightarrow> if p = [] \<or> \<not> path_exists fs p then None else Some p) of
                None \<Rightarrow>
                  (Inl (HTTPException 400
                     ''No audio file associated with this journal entry or file not found''),
                   db, st, fs)
              | Some p \<Rightarrow>
                  (case transcribe_audio env p (Some ''en'') (st, fs) of
                     (Inl e, st1, fs1) \<Rightarrow>
                       (Inl (HTTPException 500 (''Failed to transcribe journal audio: '' @ e)),
                        db, st1, fs1)
                   | (Inr (new_text, md), st1, fs1) \<Rightarrow>
                       (case commit_error denv of
                          Some e \<Rightarrow>
                            (Inl (HTTPException 500 (''Failed to transcribe journal audio: '' @ e)),
                             db, st1, fs1)
                        | None \<Rightarrow>
                            (Inr \<lparr>rr_status = ''success'', rr_journal_id = journal_id,
                                  rr_text = new_text, rr_metadata = md\<rparr>,
                             db\<lparr>rows := map (update_content journal_id new_text (utcnow denv))
                                           (rows db)\<rparr>,
                             st1, fs1)))))"

subsection \<open>The handlers of src/main.py\<close>

text \<open>
  The request body of \<open>POST /api/journal/\<close> is the schema of src/main.py, which has
  no \<open>user_id\<close>; the framework has validated it before the handler runs. A commit
  that fails is answered with a 500 by the framework.
\<close>

record JournalEntryCreate_main =
  mc_content :: string
  mc_audio_path :: "string option"

definition dict_of_main :: "JournalEntryCreate_main \<Rightarrow> (string \<times> pyval) list" where
  "dict_of_main j =
     [(''content'', PyStr (mc_content j)), (''audio_path'', opt_pyval (mc_audio_path j))]"

definition internal_error :: http_error where
  "internal_error = HTTPException 500 ''Internal Server Error''"

definition create_journal_entry ::
  "db_env \<Rightarrow> JournalEntryCreate_main \<Rightarrow> database \<Rightarrow> (http_error + JournalEntry) \<times> database" where
  "create_journal_entry env entry db =
     (case call_kwargs (dict_of_main entry) ''user_id'' (PyInt 1) of
        Inl e \<Rightarrow> (Inl internal_error, db)
      | Inr kw \<Rightarrow>
          (case new_JournalEntry kw of
             Inl e \<Rightarrow> (Inl internal_error, db)
           | Inr vals \<Rightarrow>
               (case add_commit env vals db of
                  (Inl e, db1) \<Rightarrow> (Inl internal_error, db)
                | (Inr db_entry, db1) \<Rightarrow> (Inr db_entry, db1))))"

definition get_journal_entries :: "int \<Rightarrow> int \<Rightarrow> database \<Rightarrow> http_error + JournalEntry list" where
  "get_journal_entries skip limit db =
     (if skip < 0 \<or> limit < 0 then Inl internal_error
      else Inr (take (nat limit) (drop (nat skip) (filter (\<lambda>e. user_id e = 1) (rows db)))))"

section \<open>The normalizer as the specification words it\<close>

text \<open>
  The specification's contract for the text normalizer, written from its words:
  empty or absent input yields empty output; otherwise whitespace runs are collapsed to
  single spaces, leading and trailing whitespace is trimmed, the first character is
  capitalized, and a period is appended unless the result ends in a period, an
  exclamation mark or a question mark.
\<close>

fun collapse_ws :: "'c unicode \<Rightarrow> 'c list \<Rightarrow> 'c list" where
  "collapse_ws u [] = []"
| "collapse_ws u [c] = [if isspace u c then chr u CHR '' '' else c]"
| "collapse_ws u (c # d # cs) =
     (if isspace u c
      then (if isspace u d then collapse_ws u (d # cs)
            else chr u CHR '' '' # collapse_ws u (d # cs))
      else c # collapse_ws u (d # cs))"

definition capitalize_first :: "'c unicode \<Rightarrow> 'c list \<Rightarrow> 'c list" where
  "capitalize_first u s = (case s of [] \<Rightarrow> [] | c # cs \<Rightarrow> upper_of u c @ cs)"

definition clean_spec :: "'c unicode \<Rightarrow> 'c list option \<Rightarrow> 'c list" where
  "clean_spec u text =
     (case text of
        None \<Rightarrow> []
      | Some t \<Rightarrow>
          if t = [] then []
          else
            let r = capitalize_first u (strip u (collapse_ws u t))
            in if endswith_any r [lit u ''.'', lit u ''!'', lit u ''?''] then r
               else r @ lit u ''.'')"

section \<open>What is assumed of the Unicode tables\<close>

text \<open>
  The tables on the ASCII range, as CPython has them: the code points 9-13 and 28-32
  are whitespace, and uppercasing moves the 26 lowercase letters.
\<close>

definition ascii_isspace :: "char \<Rightarrow> bool" where
  "ascii_isspace c = (let n = (of_char c :: nat) in (9 \<le> n \<and> n \<le> 13) \<or> (28 \<le> n \<and> n \<le> 32))"

definition ascii_upper :: "char \<Rightarrow> char" where
  "ascii_upper c = (let n = (of_char c :: nat) in if 97 \<le> n \<and> n \<le> 122 then char_of (n - 32) else c)"

text \<open>
  Tables agree with CPython on ASCII when distinct ASCII characters denote distinct
  characters, and whitespace and uppercase of the ASCII characters are as above.
\<close>

definition agrees_on_ascii :: "'c unicode \<Rightarrow> bool" where
  "agrees_on_ascii u =
     (inj_on (chr u) {c. (of_char c :: nat) < 128}
      \<and> (\<forall>c. (of_char c :: nat) < 128 \<longrightarrow>
             isspace u (chr u c) = ascii_isspace c \<and> upper_of u (chr u c) = [chr u (ascii_upper c)]))"

text \<open>
  Uppercasing is stable: the uppercase of a character that is not whitespace is not
  empty, has no whitespace, and starts with a character that is its own uppercase.
  (In CPython this holds of every code point: uppercase mappings are one to three
  letters or marks, and uppercasing an uppercase mapping changes nothing.)
\<close>

definition upper_stable :: "'c unicode \<Rightarrow> bool" where
  "upper_stable u =
     (\<forall>c. isspace u c \<or>
          (upper_of u c \<noteq> []
           \<and> list_all (\<lambda>d. \<not> isspace u d) (upper_of u c)
           \<and> upper_of u (hd (upper_of u c)) = [hd (upper_of u c)]))"

text \<open>
  An instance of the tables over \<open>char\<close> that agrees with CPython on ASCII; it
  serves for inputs of ASCII text.
\<close>

definition ascii :: "char unicode" where
  "ascii = \<lparr>isspace = ascii_isspace, upper_of = (\<lambda>c. [ascii_upper c]), chr = (\<lambda>c. c)\<rparr>"

section \<open>A process lifetime of the loader\<close>

text \<open>
  The process starts with both globals unset. A lifetime is a sequence of calls of
  \<open>load_glm_model\<close>, one after the other, each with its own answers from the
  environment.
\<close>

definition initial_globals :: globals where
  "initial_globals = \<lparr>g_model = None, g_processor = None, from_pretrained_calls = 0, logged = []\<rparr>"

fun load_calls :: "load_env list \<Rightarrow> globals \<Rightarrow> (exn + nat \<times> nat) list \<times> globals" where
  "load_calls [] st = ([], st)"
| "load_calls (env # envs) st =
     (let (r, st1) = load_glm_model env st;
          (rs, st2) = load_calls envs st1
      in (r # rs, st2))"

section \<open>Auxiliary notions for the proofs\<close>

definition nospace :: "'c unicode \<Rightarrow> 'c list \<Rightarrow> bool" where
  "nospace u w = list_all (\<lambda>c. \<not> isspace u c) w"

definition wordy :: "'c unicode \<Rightarrow> 'c list \<Rightarrow> bool" where
  "wordy u w = (w \<noteq> [] \<and> nospace u w)"

definition rstrip :: "'c unicode \<Rightarrow> 'c list \<Rightarrow> 'c list" where
  "rstrip u s = rev (dropWhile (isspace u) (rev s))"

text \<open>The last step of \<open>clean_text\<close>, on the collapsed and stripped text.\<close>

definition finish :: "'c unicode \<Rightarrow> 'c list \<Rightarrow> 'c list" where
  "finish u t2 =
     (case t2 of
        [] \<Rightarrow> []
      | c # cs \<Rightarrow>
          let t3 = upper u [c] @ cs
          in if \<not> endswith_any t3 [lit u ''.'', lit u ''!'', lit u ''?'']
             then t3 @ lit u ''.'' else t3)"

text \<open>
  The invariant of a lifetime: the success message is logged at most once, and not at
  all while a global is unset.
\<close>

definition one_load :: "globals \<Rightarrow> bool" where
  "one_load st = (if g_model st = None \<or> g_processor st = None
                  then count_list (logged st) loaded_msg = 0
                  else count_list (logged st) loaded_msg \<le> 1)"

text \<open>
  What a client and the system can observe of an outcome of \<open>transcribe_audio_file\<close>:
  everything but the filename the upload object still carries.
\<close>

definition observable ::
  "(http_error + transcription_response) \<times> UploadFile \<times> globals \<times> storage \<Rightarrow>
     (http_error + transcription_response) \<times> (exn + string) list \<times> bool \<times> globals \<times> storage" where
  "observable out = (case out of (r, uf, s) \<Rightarrow> (r, stream uf, closed uf, s))"

section \<open>Example inputs\<close>

definition good_loader :: load_env where
  "good_loader = \<lparr>processor_result = Inr 1, model_result = Inr 2, cuda_available = False,
                   to_cuda_result = Inr 3\<rparr>"

definition bad_loader :: load_env where
  "bad_loader = \<lparr>processor_result = Inl ''offline'', model_result = Inl ''offline'',
                  cuda_available = False, to_cuda_result = Inl ''offline''\<rparr>"

definition stereo :: audio where
  "stereo = \<lparr>channels = 2, frame_rate = 44100, duration_ms = 1000\<rparr>"

definition good_asr :: asr_env where
  "good_asr = \<lparr>loader = good_loader, decoder = (\<lambda>b. Inr stereo),
                encoder = (\<lambda>a f. Inr ''RIFF''), inference = (\<lambda>m p a. Inr ''hello'')\<rparr>"

definition failing_asr :: asr_env where
  "failing_asr = \<lparr>loader = good_loader, decoder = (\<lambda>b. Inr stereo),
                   encoder = (\<lambda>a f. Inr ''RIFF''), inference = (\<lambda>m p a. Inl ''out of memory'')\<rparr>"

definition good_disk :: disk_env where
  "good_disk = \<lparr>makedirs_error = None, open_error = None, write_error = (\<lambda>n. None)\<rparr>"

definition good_request :: request_env where
  "good_request = \<lparr>uuid4 = ''u1'', disk = good_disk, asr = good_asr\<rparr>"

definition good_db :: db_env where
  "good_db = \<lparr>commit_error = None, utcnow = 9\<rparr>"

definition entry1 :: JournalEntry where
  "entry1 = \<lparr>entry_id = 1, user_id = 1, content = ''old'',
              audio_path = Some ''uploads/audio/a.wav'', created_at = 5, updated_at = 5\<rparr>"

definition entry2 :: JournalEntry where
  "entry2 = \<lparr>entry_id = 2, user_id = 1, content = ''typed'', audio_path = None,
              created_at = 6, updated_at = 6\<rparr>"

definition db0 :: database where
  "db0 = \<lparr>rows = [entry1, entry2], next_id = 3\<rparr>"

definition mp3_store :: storage where
  "mp3_store = [''uploads/audio/a.mp3'' \<mapsto> ''ID3'']"

definition wav_store :: storage where
  "wav_store = [''uploads/audio/a.wav'' \<mapsto> ''RIFF'']"

definition upload :: "string \<Rightarrow> UploadFile" where
  "upload name = \<lparr>filename = Some name, stream = [Inr ''ab'', Inr ''cd''], closed = False\<rparr>"

section \<open>Properties of the string primitives\<close>

lemma nospace_simps [simp]:
  "nospace u []" "nospace u (c # w) = (\<not> isspace u c \<and> nospace u w)"
  "nospace u (a @ b) = (nospace u a \<and> nospace u b)"
  by (auto simp: nospace_def)

lemma lit_simps [simp]:
  "lit u [] = []" "lit u (c # s) = chr u c # lit u s"
  by (simp_all add: lit_def)

lemma upper_single [simp]: "upper u [c] = upper_of u c"
  by (simp add: upper_def)

lemma split_from_wordy:
  "nospace u w \<Longrightarrow> list_all (wordy u) (split_from (isspace u) w s)"
  by (induction s arbitrary: w) (auto simp: wordy_def)

lemma split_from_nospace_append:
  "nospace u v \<Longrightarrow> split_from (isspace u) w (v @ s) = split_from (isspace u) (w @ v) s"
  by (induction v arbitrary: w) auto

lemma split_join:
  assumes b: "isspace u b"
  shows "list_all (wordy u) ws \<Longrightarrow> split_from (isspace u) [] (join [b] ws) = ws"
proof (induction ws)
  case Nil
  then show ?case by simp
next
  case (Cons w vs)
  then have w: "nospace u w" "w \<noteq> []" by (auto simp: wordy_def)
  show ?case
  proof (cases vs)
    case Nil
    then show ?thesis using w split_from_nospace_append [of u w "[]" "[]"] by simp
  next
    case (Cons v us)
    have "split_from (isspace u) [] (join [b] (w # v # us))
            = split_from (isspace u) w ([b] @ join [b] (v # us))"
      using split_from_nospace_append [OF w(1), of "[]"] by simp
    also have "\<dots> = w # split_from (isspace u) [] (join [b] (v # us))"
      using w b by simp
    finally show ?thesis using Cons.IH Cons.prems Cons by simp
  qed
qed

lemma dropWhile_hd_fixed:
  "xs \<noteq> [] \<Longrightarrow> \<not> P (hd xs) \<Longrightarrow> dropWhile P xs = xs"
  by (cases xs) auto

lemma strip_fixed:
  "s = [] \<or> (\<not> isspace u (hd s) \<and> \<not> isspace u (last s)) \<Longrightarrow> strip u s = s"
proof (cases s)
  case Nil
  then show ?thesis by (simp add: strip_def)
next
  case (Cons c cs)
  assume "s = [] \<or> (\<not> isspace u (hd s) \<and> \<not> isspace u (last s))"
  with Cons have h: "\<not> isspace u c" "\<not> isspace u (last s)" by auto
  have "rev s \<noteq> []" using Cons by simp
  then have "hd (rev s) = last s" by (simp add: hd_rev)
  with h \<open>rev s \<noteq> []\<close> have "dropWhile (isspace u) (rev s) = rev s"
    by (intro dropWhile_hd_fixed) auto
  moreover have "dropWhile (isspace u) s = s" using Cons h by simp
  ultimately show ?thesis by (simp add: strip_def)
qed

lemma last_nospace: "nospace u w \<Longrightarrow> w \<noteq> [] \<Longrightarrow> \<not> isspace u (last w)"
  by (induction w) auto

lemma join_wordy_ends:
  "list_all (wordy u) ws \<Longrightarrow> ws \<noteq> [] \<Longrightarrow>
     join sep ws \<noteq> [] \<and> \<not> isspace u (hd (join sep ws)) \<and> \<not> isspace u (last (join sep ws))"
proof (induction ws)
  case Nil
  then show ?case by simp
next
  case (Cons w vs)
  then obtain c w' where w: "w = c # w'" "\<not> isspace u c" "nospace u w'"
    by (cases w) (auto simp: wordy_def)
  show ?case
  proof (cases vs)
    case Nil
    have "\<not> isspace u (last (c # w'))" using w(2,3) last_nospace [of u "c # w'"] by simp
    then show ?thesis using Nil w by simp
  next
    case (Cons v us)
    then show ?thesis using Cons.IH Cons.prems w by simp
  qed
qed

lemma join_snoc_last:
  "ws \<noteq> [] \<Longrightarrow> join sep (butlast ws @ [last ws @ s]) = join sep ws @ s"
proof (induction ws)
  case Nil
  then show ?case by simp
next
  case (Cons w vs)
  show ?case
  proof (cases vs)
    case Nil
    then show ?thesis by simp
  next
    case (Cons v us)
    then have "butlast vs @ [last vs @ s] \<noteq> []" by simp
    then obtain x xs where "butlast vs @ [last vs @ s] = x # xs"
      by (cases "butlast vs @ [last vs @ s]") auto
    then show ?thesis using Cons.IH Cons by simp
  qed
qed

lemma endswith_snoc_dot:
  "endswith_any (s @ lit u ''.'') [lit u ''.'', lit u ''!'', lit u ''?'']"
  by (simp add: endswith_any_def endswith_def)

lemma finish_Cons:
  "finish u (c # cs) =
     (if endswith_any (upper_of u c @ cs) [lit u ''.'', lit u ''!'', lit u ''?'']
      then upper_of u c @ cs
      else upper_of u c @ cs @ lit u ''.'')"
  by (simp add: finish_def)

lemma finish_upper:
  assumes "upper_of u c = h # t" "upper_of u h = [h]"
  shows "finish u (upper_of u c @ cs) =
     (if endswith_any (upper_of u c @ cs) [lit u ''.'', lit u ''!'', lit u ''?'']
      then upper_of u c @ cs
      else upper_of u c @ cs @ lit u ''.'')"
  using assms by (simp add: finish_Cons)

lemma clean_text_words: "clean_text u (Some t) = finish u (join (lit u '' '') (split u t))"
proof (cases "t = []")
  case True
  then show ?thesis by (simp add: clean_text_def split_def finish_def)
next
  case False
  let ?ws = "split u t"
  let ?j = "join (lit u '' '') ?ws"
  have wl: "list_all (wordy u) ?ws" unfolding split_def by (rule split_from_wordy) simp
  have st: "strip u ?j = ?j"
  proof (cases "?ws = []")
    case True
    then show ?thesis by (simp add: strip_def)
  next
    case False
    then show ?thesis using join_wordy_ends [OF wl] by (intro strip_fixed) simp
  qed
  show ?thesis
    using False st by (cases ?j) (simp_all add: clean_text_def finish_def)
qed

lemma join_append_first:
  "join sep ((a @ w) # rest) = a @ join sep (w # rest)"
  by (cases rest) auto

lemma finish_join:
  assumes wl: "list_all (wordy u) ws" and ne: "ws \<noteq> []"
    and stable: "upper_stable u" and dot: "\<not> isspace u (chr u CHR ''.'')"
  shows "\<exists>ws'. list_all (wordy u) ws' \<and> finish u (join sep ws) = join sep ws'
           \<and> finish u (join sep ws') = join sep ws'"
proof -
  from ne obtain w rest where ws: "ws = w # rest" by (cases ws) auto
  with wl obtain c w' where w: "w = c # w'" "\<not> isspace u c" "nospace u w'"
    by (cases w) (auto simp: wordy_def)
  from stable w(2) have up: "upper_of u c \<noteq> []" "nospace u (upper_of u c)"
      "upper_of u (hd (upper_of u c)) = [hd (upper_of u c)]"
    by (auto simp: upper_stable_def nospace_def)
  then obtain h t where ht: "upper_of u c = h # t" "upper_of u h = [h]"
    by (cases "upper_of u c") auto
  define ws1 where "ws1 = (upper_of u c @ w') # rest"
  define cs where "cs = join sep (w' # rest)"
  have j: "join sep ws = c # cs"
    using join_append_first [of sep "[c]" w' rest] by (simp add: ws w cs_def)
  have j1: "join sep ws1 = upper_of u c @ cs"
    by (simp add: ws1_def cs_def join_append_first)
  have wl1: "list_all (wordy u) ws1" and ne1: "ws1 \<noteq> []"
    using wl ws w up by (simp_all add: ws1_def wordy_def)
  show ?thesis
  proof (cases "endswith_any (upper_of u c @ cs) [lit u ''.'', lit u ''!'', lit u ''?'']")
    case True
    then have "finish u (join sep ws) = join sep ws1"
      by (simp add: j j1 finish_Cons)
    moreover have "finish u (join sep ws1) = join sep ws1"
      using True finish_upper [OF ht, of cs] by (simp add: j1)
    ultimately show ?thesis using wl1 by blast
  next
    case False
    define ws2 where "ws2 = butlast ws1 @ [last ws1 @ lit u ''.'']"
    have j2: "join sep ws2 = upper_of u c @ cs @ lit u ''.''"
      using join_snoc_last [OF ne1, of sep "lit u ''.''"] by (simp add: ws2_def j1)
    have "list_all (wordy u) (butlast ws1)"
      using wl1 by (metis list_all_iff in_set_butlastD)
    moreover have "wordy u (last ws1)"
      using wl1 ne1 by (metis list_all_iff last_in_set)
    ultimately have wl2: "list_all (wordy u) ws2"
      using dot by (simp add: ws2_def wordy_def)
    have "finish u (join sep ws) = join sep ws2"
      using False by (simp add: j j2 finish_Cons)
    moreover have "finish u (join sep ws2) = join sep ws2"
      unfolding j2
      using finish_upper [OF ht, of "cs @ lit u ''.''"]
        endswith_snoc_dot [of "upper_of u c @ cs" u]
      by simp
    ultimately show ?thesis using wl2 by blast
  qed
qed

lemma ascii_upper_stable: "upper_stable ascii"
  by (auto simp: upper_stable_def ascii_def ascii_upper_def ascii_isspace_def Let_def)

text \<open>
  Claim C7: \<open>clean_text\<close> is idempotent: cleaning a cleaned text returns it
  unchanged, for every input (a string over any characters, or \<open>None\<close>) and for all
  Unicode tables in which the space is whitespace, the period is not, and uppercasing
  is stable.
\<close>

theorem clean_text_idempotent:
  assumes "isspace u (chr u CHR '' '')" and "\<not> isspace u (chr u CHR ''.'')"
    and "upper_stable u"
  shows "clean_text u (Some (clean_text u x)) = clean_text u x"
proof (cases x)
  case None
  then show ?thesis by (simp add: clean_text_def)
next
  case (Some t)
  let ?sep = "lit u '' ''"
  have wl: "list_all (wordy u) (split u t)" unfolding split_def by (rule split_from_wordy) simp
  show ?thesis
  proof (cases "split u t = []")
    case True
    then show ?thesis using Some by (simp add: clean_text_words finish_def split_def)
  next
    case False
    from finish_join [OF wl False assms(3) assms(2), of ?sep] obtain ws' where
      h: "list_all (wordy u) ws'" "finish u (join ?sep (split u t)) = join ?sep ws'"
         "finish u (join ?sep ws') = join ?sep ws'" by blast
    have "split u (join ?sep ws') = ws'"
      unfolding split_def using split_join [OF assms(1) h(1)] by simp
    then show ?thesis using Some h by (simp add: clean_text_words)
  qed
qed

theorem clean_text_idempotent_witness:
  "isspace ascii (chr ascii CHR '' '') \<and> \<not> isspace ascii (chr ascii CHR ''.'')
   \<and> upper_stable ascii
   \<and> clean_text ascii (Some '' so  it goes '') = ''So it goes.''
   \<and> clean_text ascii (Some (clean_text ascii (Some '' so  it goes '')))
       = clean_text ascii (Some '' so  it goes '')"
proof -
  have a: "isspace ascii (chr ascii CHR '' '')" "\<not> isspace ascii (chr ascii CHR ''.'')"
    by (simp_all add: ascii_def ascii_isspace_def)
  have b: "clean_text ascii (Some '' so  it goes '') = ''So it goes.''"
    by (simp add: clean_text_def split_def strip_def lit_def upper_def ascii_def
        ascii_isspace_def ascii_upper_def endswith_any_def endswith_def char_of_eq_iff Let_def)
  show ?thesis
    using a b ascii_upper_stable
      clean_text_idempotent [OF a ascii_upper_stable, of "Some '' so  it goes ''"]
    by simp
qed

lemma strip_rstrip: "strip u s = rstrip u (dropWhile (isspace u) s)"
  by (simp add: strip_def rstrip_def)

lemma rstrip_Nil [simp]: "rstrip u [] = []"
  by (simp add: rstrip_def)

lemma rstrip_Cons:
  "rstrip u (c # s) = (if isspace u c \<and> rstrip u s = [] then [] else c # rstrip u s)"
proof (cases "\<forall>x\<in>set (rev s). isspace u x")
  case True
  then have "dropWhile (isspace u) (rev s @ [c]) = dropWhile (isspace u) [c]"
    by (intro dropWhile_append2) auto
  moreover have "rstrip u s = []" using True by (simp add: rstrip_def)
  ultimately show ?thesis by (simp add: rstrip_def)
next
  case False
  then obtain x where "x \<in> set (rev s)" "\<not> isspace u x" by blast
  then have "dropWhile (isspace u) (rev s @ [c]) = dropWhile (isspace u) (rev s) @ [c]"
    by (intro dropWhile_append1)
  moreover have "rstrip u s \<noteq> []" using False by (simp add: rstrip_def dropWhile_eq_Nil_conv)
  ultimately show ?thesis by (simp add: rstrip_def)
qed

lemma rstrip_nospace_append: "nospace u w \<Longrightarrow> rstrip u (w @ s) = w @ rstrip u s"
  by (induction w) (simp_all add: rstrip_Cons)

lemma collapse_ws_nospace: "\<not> isspace u c \<Longrightarrow> collapse_ws u (c # cs) = c # collapse_ws u cs"
  by (cases cs) simp_all

lemma collapse_ws_space:
  "isspace u c \<Longrightarrow>
     collapse_ws u (c # cs) = chr u CHR '' '' # collapse_ws u (dropWhile (isspace u) cs)"
  by (induction cs arbitrary: c) simp_all

lemma lstrip_collapse_ws:
  "dropWhile (isspace u) (collapse_ws u (dropWhile (isspace u) s))
     = collapse_ws u (dropWhile (isspace u) s)"
proof (cases "dropWhile (isspace u) s")
  case Nil
  show ?thesis unfolding Nil by simp
next
  case (Cons c cs)
  then have "\<not> isspace u c" by (metis hd_dropWhile list.sel(1) list.distinct(1))
  then show ?thesis using Cons by (simp add: collapse_ws_nospace)
qed

lemma strip_collapse_lstrip:
  "isspace u (chr u CHR '' '') \<Longrightarrow>
     strip u (collapse_ws u (dropWhile (isspace u) s)) = strip u (collapse_ws u s)"
  by (cases s) (simp_all add: collapse_ws_space strip_rstrip)

lemma join_Nil_iff: "list_all (wordy u) ws \<Longrightarrow> join sep ws = [] \<longleftrightarrow> ws = []"
  using join_wordy_ends [of u ws sep] by auto

lemma join_split_from:
  assumes b: "isspace u (chr u CHR '' '')"
  shows "nospace u w \<Longrightarrow>
     join (lit u '' '') (split_from (isspace u) w s) = strip u (w @ collapse_ws u s)"
proof (induction s arbitrary: w)
  case Nil
  have "strip u w = w"
    using Nil rstrip_nospace_append [of u w "[]"]
    by (cases w) (simp_all add: strip_rstrip)
  then show ?case by simp
next
  case (Cons c cs)
  show ?case
  proof (cases "isspace u c")
    case False
    then show ?thesis using Cons.IH [of "w @ [c]"] Cons.prems
      by (simp add: collapse_ws_nospace)
  next
    case True
    define Y where "Y = collapse_ws u (dropWhile (isspace u) cs)"
    define Z where "Z = join (lit u '' '') (split_from (isspace u) [] cs)"
    have Z: "Z = strip u Y"
      using Cons.IH [of "[]"] by (simp add: Z_def Y_def strip_collapse_lstrip [OF b])
    have ZY: "Z = rstrip u Y"
      unfolding Z strip_rstrip Y_def by (simp add: lstrip_collapse_ws)
    show ?thesis
    proof (cases "w = []")
      case True
      then show ?thesis
        using \<open>isspace u c\<close> Z b
        by (simp add: collapse_ws_space Y_def [symmetric] Z_def strip_rstrip)
    next
      case False
      then obtain a w' where w: "w = a # w'" by (cases w) auto
      with Cons.prems have na: "\<not> isspace u a" by simp
      have wl: "list_all (wordy u) (split_from (isspace u) [] cs)"
        by (rule split_from_wordy) simp
      have "join (lit u '' '') (split_from (isspace u) w (c # cs))
              = join (lit u '' '') (w # split_from (isspace u) [] cs)"
        using True False by simp
      also have "\<dots> = (if Z = [] then w else w @ lit u '' '' @ Z)"
        using join_Nil_iff [OF wl, of "lit u '' ''"]
        by (cases "split_from (isspace u) [] cs") (auto simp: Z_def)
      finally have lhs: "join (lit u '' '') (split_from (isspace u) w (c # cs))
              = (if Z = [] then w else w @ lit u '' '' @ Z)" .
      have "strip u (w @ collapse_ws u (c # cs)) = rstrip u (w @ chr u CHR '' '' # Y)"
        using True na by (simp add: collapse_ws_space Y_def strip_rstrip w)
      also have "\<dots> = w @ rstrip u (chr u CHR '' '' # Y)"
        using Cons.prems by (rule rstrip_nospace_append)
      also have "\<dots> = (if Z = [] then w else w @ lit u '' '' @ Z)"
        using b by (simp add: rstrip_Cons ZY)
      finally show ?thesis using lhs by simp
    qed
  qed
qed

lemma strip_collapse_ws:
  "isspace u (chr u CHR '' '') \<Longrightarrow> strip u (collapse_ws u t) = join (lit u '' '') (split u t)"
  using join_split_from [of u "[]" t] by (simp add: split_def)

lemma all_space_split: "list_all sp t \<Longrightarrow> split_from sp [] t = []"
  by (induction t) auto

lemma split_from_nonempty: "w \<noteq> [] \<Longrightarrow> split_from sp w t \<noteq> []"
  by (induction t arbitrary: w) auto

lemma not_all_space_split: "\<not> list_all sp t \<Longrightarrow> split_from sp [] t \<noteq> []"
  by (induction t) (auto simp: split_from_nonempty)

lemma clean_text_refines:
  assumes b: "isspace u (chr u CHR '' '')"
  shows "clean_text u text =
     (case text of
        None \<Rightarrow> []
      | Some t \<Rightarrow> if list_all (isspace u) t then [] else clean_spec u (Some t))"
proof (cases "text")
  case None
  then show ?thesis by (simp add: clean_text_def)
next
  case (Some t)
  show ?thesis
  proof (cases "list_all (isspace u) t")
    case True
    then show ?thesis using Some
      by (simp add: clean_text_words split_def all_space_split finish_def)
  next
    case False
    then have ne: "t \<noteq> []" by auto
    have "split u t \<noteq> []" using False by (simp add: split_def not_all_space_split)
    moreover have "list_all (wordy u) (split u t)"
      unfolding split_def by (rule split_from_wordy) simp
    ultimately obtain c cs where j: "join (lit u '' '') (split u t) = c # cs"
      using join_Nil_iff by (cases "join (lit u '' '') (split u t)") auto
    show ?thesis using Some False ne j
      by (simp add: clean_text_words clean_spec_def strip_collapse_ws [OF b] finish_Cons
          capitalize_first_def)
  qed
qed

section \<open>The loader\<close>

lemma load_glm_model_loaded:
  "g_model st = Some m \<Longrightarrow> g_processor st = Some p \<Longrightarrow> load_glm_model env st = (Inr (m, p), st)"
  by (simp add: load_glm_model_def)

lemma load_glm_model_success:
  "load_glm_model env st = (Inr (m, p), st1) \<Longrightarrow> g_model st1 = Some m \<and> g_processor st1 = Some p"
  by (auto simp: load_glm_model_def load_failed_def Let_def split: if_splits sum.splits)

lemma load_calls_loaded:
  "g_model st = Some m \<Longrightarrow> g_processor st = Some p \<Longrightarrow>
     load_calls envs st = (replicate (length envs) (Inr (m, p)), st)"
  by (induction envs) (simp_all add: load_glm_model_loaded)

lemma load_failed_simps [simp]:
  "g_model (snd (load_failed e st)) = g_model st"
  "g_processor (snd (load_failed e st)) = g_processor st"
  "count_list (logged (snd (load_failed e st))) loaded_msg = count_list (logged st) loaded_msg"
  by (simp_all add: load_failed_def loaded_msg_def)

lemma one_load_step: "one_load st \<Longrightarrow> one_load (snd (load_glm_model env st))"
proof (cases "g_model st = None \<or> g_processor st = None")
  case False
  assume "one_load st"
  with False show ?thesis by (auto simp: load_glm_model_def)
next
  case True
  assume "one_load st"
  with True have z: "count_list (logged st) loaded_msg = 0" by (simp add: one_load_def)
  show ?thesis using True z
    by (simp add: one_load_def load_glm_model_def Let_def split: sum.splits)
qed

lemma one_load_calls: "one_load st \<Longrightarrow> one_load (snd (load_calls envs st))"
proof (induction envs arbitrary: st)
  case Nil
  then show ?case by simp
next
  case (Cons env envs)
  from Cons.IH [OF one_load_step [OF Cons.prems, of env]]
  show ?case by (simp add: split_beta)
qed

lemma one_load_le: "one_load st \<Longrightarrow> count_list (logged st) loaded_msg \<le> 1"
  by (auto simp: one_load_def split: if_splits)

text \<open>
  Claim C9: once a call of \<open>load_glm_model\<close> has succeeded, every later call of the
  lifetime returns the same model and processor and leaves the globals, the count of
  \<open>from_pretrained\<close> calls and the log as they were; a call makes
  \<open>from_pretrained\<close> calls only when a global is unset; and over a whole lifetime
  that starts with both globals unset, a load is completed at most once.
\<close>

theorem load_glm_model_once:
  "(load_glm_model env st = (Inr (m, p), st1) \<longrightarrow>
      load_calls envs st1 = (replicate (length envs) (Inr (m, p)), st1))
   \<and> (from_pretrained_calls (snd (load_glm_model env st)) \<noteq> from_pretrained_calls st \<longrightarrow>
      g_model st = None \<or> g_processor st = None)
   \<and> count_list (logged (snd (load_calls envs initial_globals))) loaded_msg \<le> 1"
proof (intro conjI impI)
  assume "load_glm_model env st = (Inr (m, p), st1)"
  then have "g_model st1 = Some m \<and> g_processor st1 = Some p" by (rule load_glm_model_success)
  then show "load_calls envs st1 = (replicate (length envs) (Inr (m, p)), st1)"
    by (simp add: load_calls_loaded)
next
  assume "from_pretrained_calls (snd (load_glm_model env st)) \<noteq> from_pretrained_calls st"
  then show "g_model st = None \<or> g_processor st = None"
    by (auto simp: load_glm_model_def split: if_splits)
next
  have "one_load initial_globals" by (simp add: one_load_def initial_globals_def)
  then show "count_list (logged (snd (load_calls envs initial_globals))) loaded_msg \<le> 1"
    by (intro one_load_le one_load_calls)
qed

theorem load_glm_model_once_witness:
  "load_glm_model good_loader initial_globals =
     (Inr (2, 1), \<lparr>g_model = Some 2, g_processor = Some 1, from_pretrained_calls = 2,
                   logged = [loaded_msg]\<rparr>)
   \<and> load_calls [bad_loader, good_loader]
        \<lparr>g_model = Some 2, g_processor = Some 1, from_pretrained_calls = 2, logged = [loaded_msg]\<rparr>
      = ([Inr (2, 1), Inr (2, 1)],
         \<lparr>g_model = Some 2, g_processor = Some 1, from_pretrained_calls = 2, logged = [loaded_msg]\<rparr>)
   \<and> from_pretrained_calls (snd (load_glm_model good_loader initial_globals)) \<noteq>
       from_pretrained_calls initial_globals
   \<and> g_model initial_globals = None
   \<and> count_list (logged (snd (load_calls [bad_loader, good_loader, good_loader] initial_globals)))
        loaded_msg = 1"
proof -
  have a: "load_glm_model good_loader initial_globals =
     (Inr (2, 1), \<lparr>g_model = Some 2, g_processor = Some 1, from_pretrained_calls = 2,
                   logged = [loaded_msg]\<rparr>)"
    by (simp add: load_glm_model_def good_loader_def initial_globals_def)
  have b: "count_list (logged (snd (load_calls [bad_loader, good_loader, good_loader] initial_globals)))
        loaded_msg = 1"
    by (simp add: load_glm_model_def good_loader_def bad_loader_def initial_globals_def
        load_failed_def loaded_msg_def)
  show ?thesis
    using load_glm_model_once [of good_loader initial_globals 2 1
        "\<lparr>g_model = Some 2, g_processor = Some 1, from_pretrained_calls = 2, logged = [loaded_msg]\<rparr>"
        "[bad_loader, good_loader]"] a b
    by (simp add: initial_globals_def)
qed


section \<open>Evaluation on concrete inputs\<close>

lemmas string_eval = lower_def lower_char_def endswith_any_def endswith_def char_of_eq_iff Let_def

lemmas text_eval = clean_text_def clean_spec_def capitalize_first_def split_def strip_def lit_def
  upper_def ascii_def ascii_isspace_def ascii_upper_def endswith_any_def endswith_def
  char_of_eq_iff Let_def

lemmas path_eval = splitext_def rfind_def path_join_def path_exists_def unlink_def UPLOAD_DIR_def
  allowed_extensions_def

section \<open>The normalizer against its contract\<close>

text \<open>
  Claim C6, as stated, at a whitespace-only input: the contract appends a period to
  the empty trimmed text, \<open>clean_text\<close> returns the empty string.
\<close>

theorem clean_text_whitespace_only:
  "clean_text ascii (Some ''  '') \<noteq> clean_spec ascii (Some ''  '')
   \<and> clean_text ascii (Some ''  '') = [] \<and> clean_spec ascii (Some ''  '') = ''.''"
  by (simp add: text_eval)

lemma clean_text_blank_only:
  assumes "isspace u (chr u CHR '' '')"
  shows "clean_text u (Some (lit u ''  '')) = [] \<and> clean_spec u (Some (lit u ''  '')) = lit u ''.''"
  using assms
  by (simp add: clean_text_def clean_spec_def capitalize_first_def split_def strip_def
      endswith_any_def endswith_def)

lemma ascii_literal_rules:
  assumes "agrees_on_ascii u"
  shows "(of_char c :: nat) < 128 \<Longrightarrow> isspace u (chr u c) = ascii_isspace c"
    and "(of_char c :: nat) < 128 \<Longrightarrow> upper_of u (chr u c) = [chr u (ascii_upper c)]"
    and "(of_char c :: nat) < 128 \<Longrightarrow> (of_char d :: nat) < 128 \<Longrightarrow>
           (chr u c = chr u d) = (c = d)"
  using assms by (auto simp: agrees_on_ascii_def inj_on_def)

lemma agrees_on_ascii_ascii: "agrees_on_ascii ascii"
  by (simp add: agrees_on_ascii_def ascii_def inj_on_def)

text \<open>
  Claim C6, amended: for all Unicode tables that agree with CPython on ASCII,
  \<open>clean_text\<close> returns the empty string for absent, empty and whitespace-only input,
  and on every other input the text the contract describes (whitespace runs collapsed,
  trimmed, first character capitalized, a period appended unless the text ends in a
  period, exclamation mark or question mark); the three examples of the specification
  hold.
\<close>

theorem clean_text_contract:
  assumes "agrees_on_ascii u"
  shows "clean_text u text =
     (case text of
        None \<Rightarrow> []
      | Some t \<Rightarrow> if list_all (isspace u) t then [] else clean_spec u (Some t))
   \<and> clean_text u None = []
   \<and> clean_text u (Some (lit u [])) = lit u []
   \<and> clean_text u (Some (lit u ''  hello world  '')) = lit u ''Hello world.''
   \<and> clean_text u (Some (lit u ''already punctuated!'')) = lit u ''Already punctuated!''"
proof (intro conjI)
  note r = ascii_literal_rules [OF assms]
  have b: "isspace u (chr u CHR '' '')" by (simp add: r(1) ascii_isspace_def)
  show "clean_text u text =
     (case text of None \<Rightarrow> [] | Some t \<Rightarrow> if list_all (isspace u) t then [] else clean_spec u (Some t))"
    using b by (rule clean_text_refines)
  show "clean_text u None = []" by (simp add: clean_text_def)
  show "clean_text u (Some (lit u [])) = lit u []" by (simp add: clean_text_def)
  show "clean_text u (Some (lit u ''  hello world  '')) = lit u ''Hello world.''"
    by (simp add: clean_text_def split_def strip_def lit_def upper_def r ascii_isspace_def
        ascii_upper_def endswith_any_def endswith_def char_of_eq_iff Let_def)
  show "clean_text u (Some (lit u ''already punctuated!'')) = lit u ''Already punctuated!''"
    by (simp add: clean_text_def split_def strip_def lit_def upper_def r ascii_isspace_def
        ascii_upper_def endswith_any_def endswith_def char_of_eq_iff Let_def)
qed

theorem clean_text_contract_witness:
  "agrees_on_ascii ascii
   \<and> clean_text ascii (Some ''   '') = []
   \<and> clean_text ascii (Some ''a  b'') = clean_spec ascii (Some ''a  b'')
   \<and> clean_text ascii (Some ''a  b'') = ''A b.''
   \<and> clean_text ascii (Some ''  hello world  '') = ''Hello world.''
   \<and> clean_text ascii (Some ''already punctuated!'') = ''Already punctuated!''"
proof -
  have e: "list_all (isspace ascii) ''   ''" "\<not> list_all (isspace ascii) ''a  b''"
    "clean_spec ascii (Some ''a  b'') = ''A b.''"
    by (simp_all add: text_eval)
  have l: "lit ascii = (\<lambda>s. s)" by (rule ext) (simp add: lit_def ascii_def)
  show ?thesis
    using e agrees_on_ascii_ascii
      clean_text_contract [OF agrees_on_ascii_ascii, of "Some ''   ''"]
      clean_text_contract [OF agrees_on_ascii_ascii, of "Some ''a  b''"]
    by (simp add: l)
qed

section \<open>Extension validation and the upload\<close>

lemma rfind_from_map:
  "(\<And>x. f x = c \<longleftrightarrow> x = c) \<Longrightarrow> rfind_from c (map f p) i found = rfind_from c p i found"
  by (induction p arbitrary: i found) simp_all

lemma of_char_lower_char:
  "(of_char (lower_char x) :: nat) =
     (if 65 \<le> (of_char x :: nat) \<and> (of_char x :: nat) \<le> 90 then of_char x + 32 else of_char x)"
  by (simp add: lower_char_def Let_def)

lemma lower_char_dot: "lower_char x = CHR ''.'' \<longleftrightarrow> x = CHR ''.''"
proof
  assume "lower_char x = CHR ''.''"
  then have "(of_char (lower_char x) :: nat) = of_char CHR ''.''" by simp
  then have "(of_char x :: nat) = of_char CHR ''.''"
    by (simp add: of_char_lower_char split: if_splits)
  then show "x = CHR ''.''" by (rule of_char_eqI)
next
  assume "x = CHR ''.''"
  then show "lower_char x = CHR ''.''" by (simp add: lower_char_def)
qed

lemma lower_char_slash: "lower_char x = CHR ''/'' \<longleftrightarrow> x = CHR ''/''"
proof
  assume "lower_char x = CHR ''/''"
  then have "(of_char (lower_char x) :: nat) = of_char CHR ''/''" by simp
  then have "(of_char x :: nat) = of_char CHR ''/''"
    by (simp add: of_char_lower_char split: if_splits)
  then show "x = CHR ''/''" by (rule of_char_eqI)
next
  assume "x = CHR ''/''"
  then show "lower_char x = CHR ''/''" by (simp add: lower_char_def)
qed

lemma rfind_lower:
  "rfind CHR ''.'' (lower p) = rfind CHR ''.'' p" "rfind CHR ''/'' (lower p) = rfind CHR ''/'' p"
  by (simp_all add: rfind_def lower_def rfind_from_map lower_char_dot lower_char_slash)

lemma list_ex_lower_dot:
  "list_ex (\<lambda>c. c \<noteq> CHR ''.'') (lower s) = list_ex (\<lambda>c. c \<noteq> CHR ''.'') s"
  by (induction s) (simp_all add: lower_def lower_char_dot)

lemma lower_take: "take n (lower s) = lower (take n s)"
  by (simp add: lower_def take_map)

lemma lower_drop: "drop n (lower s) = lower (drop n s)"
  by (simp add: lower_def drop_map)

lemma lower_Nil [simp]: "lower [] = []"
  by (simp add: lower_def)

lemma splitext_lower:
  "splitext (lower p) = (lower (fst (splitext p)), lower (snd (splitext p)))"
  by (simp add: splitext_def Let_def rfind_lower lower_take lower_drop list_ex_lower_dot)

lemma lower_char_idem: "lower_char (lower_char c) = lower_char c"
  by (auto simp: lower_char_def Let_def)

lemma lower_idem: "lower (lower s) = lower s"
  by (simp add: lower_def lower_char_idem)


lemma save_body_filename:
  "save_body env (uf\<lparr>filename := x\<rparr>) d fs =
     (case save_body env uf d fs of (r, uf1, fs1) \<Rightarrow> (r, uf1\<lparr>filename := x\<rparr>, fs1))"
  by (simp add: save_body_def split_beta Let_def split: option.splits)

lemma save_upload_file_filename:
  "save_upload_file env (uf\<lparr>filename := x\<rparr>) d fs =
     (case save_upload_file env uf d fs of (r, uf1, fs1) \<Rightarrow> (r, uf1\<lparr>filename := x\<rparr>, fs1))"
  by (simp add: save_upload_file_def save_body_filename split_beta Let_def split: sum.splits)

lemma save_upload_file_closed:
  "save_upload_file env uf d fs = (r, uf1, fs1) \<Longrightarrow> closed uf1"
  by (auto simp: save_upload_file_def split_beta Let_def split: sum.splits)

lemma save_upload_file_status:
  "save_upload_file env uf d fs = (Inl err, uf1, fs1) \<Longrightarrow> status_code err = 500"
  by (auto simp: save_upload_file_def split_beta Let_def split: sum.splits)

lemma transcribe_audio_file_same_ext:
  assumes "snd (splitext (lower n1)) = snd (splitext (lower n2))"
  shows "observable (transcribe_audio_file env (uf\<lparr>filename := Some n1\<rparr>) language s)
       = observable (transcribe_audio_file env (uf\<lparr>filename := Some n2\<rparr>) language s)"
proof -
  obtain st fs where s: "s = (st, fs)" by (cases s)
  show ?thesis
    unfolding s transcribe_audio_file_def observable_def
    using assms
    by (simp add: save_upload_file_filename split_beta Let_def split: sum.splits)
qed

lemma transcribe_audio_file_rejected:
  "filename audio_file = Some name \<Longrightarrow> snd (splitext (lower name)) \<notin> set allowed_extensions \<Longrightarrow>
     transcribe_audio_file env audio_file language (st, fs) =
       (Inl (HTTPException 400
          ''Unsupported file format. Supported formats: WAV, MP3, M4A, OGG, WEBM''),
        audio_file, st, fs)"
  by (simp add: transcribe_audio_file_def)

lemma transcribe_audio_file_accepted:
  assumes "filename audio_file = Some name" "snd (splitext (lower name)) \<in> set allowed_extensions"
  shows "closed (fst (snd (transcribe_audio_file env audio_file language (st, fs))))
       \<and> (case fst (transcribe_audio_file env audio_file language (st, fs)) of
            Inl err \<Rightarrow> status_code err = 500 | Inr r \<Rightarrow> True)"
proof -
  let ?p = "path_join UPLOAD_DIR (uuid4 env @ snd (splitext (lower name)))"
  obtain r uf1 fs1 where sv: "save_upload_file (disk env) audio_file ?p fs = (r, uf1, fs1)"
    by (cases "save_upload_file (disk env) audio_file ?p fs") auto
  note c = save_upload_file_closed [OF sv]
  show ?thesis
  proof (cases r)
    case (Inl err)
    then show ?thesis using assms sv c save_upload_file_status [of "disk env" audio_file ?p fs err uf1 fs1]
      by (simp add: transcribe_audio_file_def)
  next
    case (Inr d)
    obtain r2 st2 fs2 where tr: "transcribe_audio (asr env) ?p language (st, fs1) = (r2, st2, fs2)"
      by (cases "transcribe_audio (asr env) ?p language (st, fs1)") auto
    show ?thesis using assms sv c Inr tr
      by (cases r2) (auto simp: transcribe_audio_file_def Let_def)
  qed
qed

text \<open>
  Claim C4: a filename whose lowercased extension is outside the allowed set is
  answered with 400 and nothing changes (no file is written, the upload is not read);
  a filename whose lowercased extension is in the set passes validation: the upload is
  saved and closed, and an error, if any, is not a 400.
\<close>

theorem transcribe_audio_file_validation:
  "filename audio_file = Some name \<longrightarrow>
     (snd (splitext (lower name)) \<notin> set allowed_extensions \<longrightarrow>
        transcribe_audio_file env audio_file language (st, fs) =
          (Inl (HTTPException 400
             ''Unsupported file format. Supported formats: WAV, MP3, M4A, OGG, WEBM''),
           audio_file, st, fs))
     \<and> (snd (splitext (lower name)) \<in> set allowed_extensions \<longrightarrow>
        closed (fst (snd (transcribe_audio_file env audio_file language (st, fs))))
        \<and> (case fst (transcribe_audio_file env audio_file language (st, fs)) of
             Inl err \<Rightarrow> status_code err \<noteq> 400 | Inr r \<Rightarrow> True))"
proof (intro impI conjI)
  assume n: "filename audio_file = Some name"
  {
    assume "snd (splitext (lower name)) \<notin> set allowed_extensions"
    with n show "transcribe_audio_file env audio_file language (st, fs) =
          (Inl (HTTPException 400
             ''Unsupported file format. Supported formats: WAV, MP3, M4A, OGG, WEBM''),
           audio_file, st, fs)"
      by (rule transcribe_audio_file_rejected)
  }
  {
    assume a: "snd (splitext (lower name)) \<in> set allowed_extensions"
    note acc = transcribe_audio_file_accepted [OF n a, of env language st fs]
    from acc show "closed (fst (snd (transcribe_audio_file env audio_file language (st, fs))))"
      by simp
    from acc show "case fst (transcribe_audio_file env audio_file language (st, fs)) of
             Inl err \<Rightarrow> status_code err \<noteq> 400 | Inr r \<Rightarrow> True"
      by (auto split: sum.splits)
  }
qed

theorem transcribe_audio_file_validation_witness:
  "(filename (upload ''notes.txt'') = Some ''notes.txt''
      \<and> snd (splitext (lower ''notes.txt'')) \<notin> set allowed_extensions
      \<and> transcribe_audio_file good_request (upload ''notes.txt'') (Some ''en'')
            (initial_globals, Map.empty) =
          (Inl (HTTPException 400
             ''Unsupported file format. Supported formats: WAV, MP3, M4A, OGG, WEBM''),
           upload ''notes.txt'', initial_globals, Map.empty))
   \<and> (filename (upload ''talk.ogg'') = Some ''talk.ogg''
      \<and> snd (splitext (lower ''talk.ogg'')) \<in> set allowed_extensions
      \<and> closed (fst (snd (transcribe_audio_file good_request (upload ''talk.ogg'') (Some ''en'')
            (initial_globals, Map.empty)))))"
proof -
  have a: "filename (upload ''notes.txt'') = Some ''notes.txt''"
    "filename (upload ''talk.ogg'') = Some ''talk.ogg''"
    by (simp_all add: upload_def)
  have b: "snd (splitext (lower ''notes.txt'')) \<notin> set allowed_extensions"
    "snd (splitext (lower ''talk.ogg'')) \<in> set allowed_extensions"
    by (simp_all add: string_eval path_eval)
  show ?thesis
    using a b
      transcribe_audio_file_validation [of "upload ''notes.txt''" "''notes.txt''" good_request
        "Some ''en''" initial_globals Map.empty]
      transcribe_audio_file_validation [of "upload ''talk.ogg''" "''talk.ogg''" good_request
        "Some ''en''" initial_globals Map.empty]
    by simp
qed

text \<open>
  Claim C10: the extension check is case-insensitive. The extension tested is the
  lowercased extension of the filename; a filename and its lowercase form lead to the
  same response, the same state of the upload stream and the same globals and storage;
  and a filename whose extension is an allowed one up to letter case is not answered
  with a 400.
\<close>

theorem extension_check_case_insensitive:
  "snd (splitext (lower name)) = lower (snd (splitext name))
   \<and> observable (transcribe_audio_file env (uf\<lparr>filename := Some name\<rparr>) language (st, fs))
       = observable (transcribe_audio_file env (uf\<lparr>filename := Some (lower name)\<rparr>) language (st, fs))
   \<and> (lower (snd (splitext name)) \<in> set allowed_extensions \<longrightarrow>
        closed (fst (snd (transcribe_audio_file env (uf\<lparr>filename := Some name\<rparr>) language (st, fs))))
        \<and> (case fst (transcribe_audio_file env (uf\<lparr>filename := Some name\<rparr>) language (st, fs)) of
             Inl err \<Rightarrow> status_code err \<noteq> 400 | Inr r \<Rightarrow> True))"
proof (intro conjI impI)
  show e: "snd (splitext (lower name)) = lower (snd (splitext name))"
    by (simp add: splitext_lower)
  show "observable (transcribe_audio_file env (uf\<lparr>filename := Some name\<rparr>) language (st, fs))
       = observable (transcribe_audio_file env (uf\<lparr>filename := Some (lower name)\<rparr>) language (st, fs))"
    by (rule transcribe_audio_file_same_ext) (simp add: lower_idem)
  assume "lower (snd (splitext name)) \<in> set allowed_extensions"
  then have a: "snd (splitext (lower name)) \<in> set allowed_extensions" by (simp add: e)
  have n: "filename (uf\<lparr>filename := Some name\<rparr>) = Some name" by simp
  note acc = transcribe_audio_file_accepted [OF n a, of env language st fs]
  from acc show "closed (fst (snd (transcribe_audio_file env (uf\<lparr>filename := Some name\<rparr>) language (st, fs))))"
    by simp
  from acc show "case fst (transcribe_audio_file env (uf\<lparr>filename := Some name\<rparr>) language (st, fs)) of
             Inl err \<Rightarrow> status_code err \<noteq> 400 | Inr r \<Rightarrow> True"
    by (auto split: sum.splits)
qed

theorem extension_check_case_insensitive_witness:
  "lower (snd (splitext ''x.WAV'')) \<in> set allowed_extensions
   \<and> closed (fst (snd (transcribe_audio_file good_request ((upload ''y'')\<lparr>filename := Some ''x.WAV''\<rparr>)
        (Some ''en'') (initial_globals, Map.empty))))
   \<and> lower (snd (splitext ''x.Mp3'')) \<in> set allowed_extensions
   \<and> closed (fst (snd (transcribe_audio_file good_request ((upload ''y'')\<lparr>filename := Some ''x.Mp3''\<rparr>)
        (Some ''en'') (initial_globals, Map.empty))))"
proof -
  have a: "lower (snd (splitext ''x.WAV'')) \<in> set allowed_extensions"
    "lower (snd (splitext ''x.Mp3'')) \<in> set allowed_extensions"
    by (simp_all add: string_eval path_eval)
  show ?thesis
    using a
      extension_check_case_insensitive [of "''x.WAV''" good_request "upload ''y''" "Some ''en''"
        initial_globals Map.empty]
      extension_check_case_insensitive [of "''x.Mp3''" good_request "upload ''y''" "Some ''en''"
        initial_globals Map.empty]
    by simp
qed

section \<open>Defects of the handlers\<close>


text \<open>
  Claim C2: the claim is that \<open>POST /api/journal/text/\<close> succeeds for every content
  and persists the cleaned text. The handler builds \<open>JournalEntryCreate\<close> without
  the required \<open>user_id\<close>, so for every content and every database it answers 500
  and persists nothing.
\<close>

theorem create_journal_from_text_fails:
  "create_journal_from_text u env content_arg db =
     (Inl (HTTPException 500
        (''Failed to create journal entry: '' @ field_required ''user_id'')), db)"
  by (simp add: create_journal_from_text_def persist_new_def new_JournalEntryCreate_def
      create_failed_def)

text \<open>
  Claim C1: the claim is that the WAV file written by the conversion is gone when
  \<open>transcribe_audio\<close> returns or raises. For an MP3 input the converted file is
  still on storage after a successful call and after a call that fails at inference,
  though it was not there before.
\<close>

theorem transcribe_audio_keeps_wav:
  "(case transcribe_audio good_asr ''uploads/audio/a.mp3'' (Some ''en'') (initial_globals, mp3_store) of
      (r, st, fs) \<Rightarrow> (map_sum id fst r, fs ''uploads/audio/a.wav''))
     = (Inr ''hello'', Some ''RIFF'')
   \<and> (case transcribe_audio failing_asr ''uploads/audio/a.mp3'' (Some ''en'') (initial_globals, mp3_store) of
      (r, st, fs) \<Rightarrow> (map_sum id fst r, fs ''uploads/audio/a.wav''))
     = (Inl ''out of memory'', Some ''RIFF'')
   \<and> mp3_store ''uploads/audio/a.wav'' = None"
  by (simp add: transcribe_audio_def transcribe_body_def convert_audio_format_def from_file_def
      load_glm_model_def good_asr_def failing_asr_def good_loader_def initial_globals_def
      mp3_store_def stereo_def string_eval path_eval)

text \<open>
  Claim C3: the claim is that the upload is closed on every exit of
  \<open>POST /api/transcribe/\<close>. A filename with an unsupported extension is answered
  with 400 before \<open>save_upload_file\<close> is reached, and the upload is left open.
\<close>

theorem transcribe_audio_file_rejects_open:
  "transcribe_audio_file good_request (upload ''notes.txt'') (Some ''en'') (initial_globals, Map.empty)
     = (Inl (HTTPException 400
          ''Unsupported file format. Supported formats: WAV, MP3, M4A, OGG, WEBM''),
        \<lparr>filename = Some ''notes.txt'', stream = [Inr ''ab'', Inr ''cd''], closed = False\<rparr>,
        initial_globals, Map.empty)"
  by (simp add: transcribe_audio_file_def upload_def string_eval path_eval)

section \<open>Re-transcription\<close>


lemma find_absent: "journal_id \<notin> entry_id ` set rs \<Longrightarrow> find (\<lambda>e. entry_id e = journal_id) rs = None"
  by (auto simp: find_None_iff)

text \<open>
  Claim C5: \<open>GET /api/journal/{id}/transcribe\<close> answers 404 when no entry has the
  identifier, and 400 when the entry found has no audio path or its path names no
  existing file; in both cases database, globals and storage are returned unchanged.
\<close>

theorem retranscribe_errors:
  "(journal_id \<notin> entry_id ` set (rows db) \<longrightarrow>
      transcribe_existing_journal_audio env denv journal_id (db, st, fs)
        = (Inl (HTTPException 404 ''Journal entry not found''), db, st, fs))
   \<and> (find (\<lambda>e. entry_id e = journal_id) (rows db) = Some journal \<and>
        (audio_path journal = None \<or> (\<exists>p. audio_path journal = Some p \<and> \<not> path_exists fs p)) \<longrightarrow>
      transcribe_existing_journal_audio env denv journal_id (db, st, fs)
        = (Inl (HTTPException 400
             ''No audio file associated with this journal entry or file not found''), db, st, fs))"
  by (auto simp: transcribe_existing_journal_audio_def find_absent)

theorem retranscribe_errors_witness:
  "(7 \<notin> entry_id ` set (rows db0) \<and>
      transcribe_existing_journal_audio good_asr good_db 7 (db0, initial_globals, wav_store)
        = (Inl (HTTPException 404 ''Journal entry not found''), db0, initial_globals, wav_store))
   \<and> (find (\<lambda>e. entry_id e = 2) (rows db0) = Some entry2 \<and> audio_path entry2 = None \<and>
      transcribe_existing_journal_audio good_asr good_db 2 (db0, initial_globals, wav_store)
        = (Inl (HTTPException 400
             ''No audio file associated with this journal entry or file not found''),
           db0, initial_globals, wav_store))
   \<and> (find (\<lambda>e. entry_id e = 1) (rows db0) = Some entry1 \<and>
        audio_path entry1 = Some ''uploads/audio/a.wav'' \<and>
        \<not> path_exists mp3_store ''uploads/audio/a.wav'' \<and>
      transcribe_existing_journal_audio good_asr good_db 1 (db0, initial_globals, mp3_store)
        = (Inl (HTTPException 400
             ''No audio file associated with this journal entry or file not found''),
           db0, initial_globals, mp3_store))"
proof -
  have a: "7 \<notin> entry_id ` set (rows db0)"
    by (simp add: db0_def entry1_def entry2_def)
  have b: "find (\<lambda>e. entry_id e = 2) (rows db0) = Some entry2" "audio_path entry2 = None"
    by (simp_all add: db0_def entry1_def entry2_def)
  have c: "find (\<lambda>e. entry_id e = 1) (rows db0) = Some entry1"
    "audio_path entry1 = Some ''uploads/audio/a.wav''"
    "\<not> path_exists mp3_store ''uploads/audio/a.wav''"
    by (simp_all add: db0_def entry1_def entry2_def mp3_store_def path_exists_def)
  show ?thesis
    using a b c
      retranscribe_errors [of 7 db0 good_asr good_db initial_globals wav_store entry1]
      retranscribe_errors [of 2 db0 good_asr good_db initial_globals wav_store entry2]
      retranscribe_errors [of 1 db0 good_asr good_db initial_globals mp3_store entry1]
    by simp
qed

lemma update_content_frame [simp]:
  "entry_id (update_content j t n e) = entry_id e"
  "user_id (update_content j t n e) = user_id e"
  "audio_path (update_content j t n e) = audio_path e"
  "created_at (update_content j t n e) = created_at e"
  by (simp_all add: update_content_def)

lemma update_content_others:
  "filter (\<lambda>e. entry_id e \<noteq> j) (map (update_content j t n) rs) = filter (\<lambda>e. entry_id e \<noteq> j) rs"
  by (induction rs) (simp_all add: update_content_def)

lemma update_content_target:
  "list_all (\<lambda>e. content e = t) (filter (\<lambda>e. entry_id e = j) (map (update_content j t n) rs))"
  by (induction rs) (simp_all add: update_content_def)

lemma retranscribe_success:
  assumes "transcribe_existing_journal_audio env denv journal_id (db, st, fs) = (Inr resp, db1, st1, fs1)"
  shows "db1 = db\<lparr>rows := map (update_content journal_id (rr_text resp) (utcnow denv)) (rows db)\<rparr>"
  using assms
  by (auto simp: transcribe_existing_journal_audio_def
      split: option.splits prod.splits sum.splits if_splits)

lemma add_commit_prefix:
  "add_commit denv vals db = (r, db1) \<Longrightarrow> take (length (rows db)) (rows db1) = rows db"
  by (auto simp: add_commit_def split_beta Let_def split: option.splits)

lemma persist_new_prefix:
  "persist_new denv c a db = (r, db1) \<Longrightarrow> take (length (rows db)) (rows db1) = rows db"
  by (auto simp: persist_new_def split: sum.splits dest: add_commit_prefix)

lemma create_journal_entry_prefix:
  "take (length (rows db)) (rows (snd (create_journal_entry denv entry db))) = rows db"
  by (auto simp: create_journal_entry_def split: sum.splits prod.splits dest: add_commit_prefix)

lemma create_journal_from_text_prefix:
  "take (length (rows db)) (rows (snd (create_journal_from_text u denv c db))) = rows db"
  by (auto simp: create_journal_from_text_def split: sum.splits prod.splits dest: persist_new_prefix)

lemma create_journal_from_audio_prefix:
  "take (length (rows db))
     (rows (fst (snd (snd (create_journal_from_audio renv denv uf (db, st, fs)))))) = rows db"
  by (auto simp: create_journal_from_audio_def split: sum.splits prod.splits dest: persist_new_prefix)

text \<open>
  Claim C8: a successful re-transcription keeps the identifier, owner, audio path and
  creation time of every entry, leaves the entries with another identifier as they
  were, and sets the content of the entry with the identifier to the returned text;
  each creating handler leaves the existing rows as a prefix of the table.
\<close>

theorem retranscribe_frame:
  "(transcribe_existing_journal_audio env denv journal_id (db, st, fs) = (Inr resp, db1, st1, fs1) \<longrightarrow>
      map entry_id (rows db1) = map entry_id (rows db)
      \<and> map user_id (rows db1) = map user_id (rows db)
      \<and> map audio_path (rows db1) = map audio_path (rows db)
      \<and> map created_at (rows db1) = map created_at (rows db)
      \<and> next_id db1 = next_id db
      \<and> filter (\<lambda>e. entry_id e \<noteq> journal_id) (rows db1)
          = filter (\<lambda>e. entry_id e \<noteq> journal_id) (rows db)
      \<and> list_all (\<lambda>e. content e = rr_text resp)
          (filter (\<lambda>e. entry_id e = journal_id) (rows db1)))
   \<and> take (length (rows db)) (rows (snd (create_journal_from_text u denv c db))) = rows db
   \<and> take (length (rows db))
        (rows (fst (snd (snd (create_journal_from_audio renv denv uf (db, st, fs)))))) = rows db
   \<and> take (length (rows db)) (rows (snd (create_journal_entry denv entry db))) = rows db"
proof (intro conjI impI)
  assume a: "transcribe_existing_journal_audio env denv journal_id (db, st, fs) = (Inr resp, db1, st1, fs1)"
  note d = retranscribe_success [OF a]
  show "map entry_id (rows db1) = map entry_id (rows db)" by (simp add: d comp_def)
  show "map user_id (rows db1) = map user_id (rows db)" by (simp add: d comp_def)
  show "map audio_path (rows db1) = map audio_path (rows db)" by (simp add: d comp_def)
  show "map created_at (rows db1) = map created_at (rows db)" by (simp add: d comp_def)
  show "next_id db1 = next_id db" by (simp add: d)
  show "filter (\<lambda>e. entry_id e \<noteq> journal_id) (rows db1) = filter (\<lambda>e. entry_id e \<noteq> journal_id) (rows db)"
    by (simp add: d update_content_others)
  show "list_all (\<lambda>e. content e = rr_text resp) (filter (\<lambda>e. entry_id e = journal_id) (rows db1))"
    by (simp add: d update_content_target)
qed (rule create_journal_from_text_prefix create_journal_from_audio_prefix
      create_journal_entry_prefix)+


theorem retranscribe_frame_witness:
  "transcribe_existing_journal_audio good_asr good_db 1 (db0, initial_globals, wav_store)
     = (Inr \<lparr>rr_status = ''success'', rr_journal_id = 1, rr_text = ''hello'',
             rr_metadata = \<lparr>md_language = Some ''en'', md_model = ''GLM-ASR-Nano-2512'',
                            md_duration_ms = 1000, md_sample_rate = 16000, md_channels = 1\<rparr>\<rparr>,
        \<lparr>rows = [entry1\<lparr>content := ''hello'', updated_at := 9\<rparr>, entry2], next_id = 3\<rparr>,
        \<lparr>g_model = Some 2, g_processor = Some 1, from_pretrained_calls = 2, logged = [loaded_msg]\<rparr>,
        wav_store)
   \<and> map audio_path [entry1\<lparr>content := ''hello'', updated_at := 9\<rparr>, entry2]
       = map audio_path (rows db0)
   \<and> filter (\<lambda>e. entry_id e \<noteq> 1) [entry1\<lparr>content := ''hello'', updated_at := 9\<rparr>, entry2]
       = filter (\<lambda>e. entry_id e \<noteq> 1) (rows db0)"
proof -
  have a: "transcribe_existing_journal_audio good_asr good_db 1 (db0, initial_globals, wav_store)
     = (Inr \<lparr>rr_status = ''success'', rr_journal_id = 1, rr_text = ''hello'',
             rr_metadata = \<lparr>md_language = Some ''en'', md_model = ''GLM-ASR-Nano-2512'',
                            md_duration_ms = 1000, md_sample_rate = 16000, md_channels = 1\<rparr>\<rparr>,
        \<lparr>rows = [entry1\<lparr>content := ''hello'', updated_at := 9\<rparr>, entry2], next_id = 3\<rparr>,
        \<lparr>g_model = Some 2, g_processor = Some 1, from_pretrained_calls = 2, logged = [loaded_msg]\<rparr>,
        wav_store)"
    by (simp add: transcribe_existing_journal_audio_def transcribe_audio_def transcribe_body_def
        from_file_def load_glm_model_def good_asr_def good_loader_def good_db_def
        initial_globals_def wav_store_def db0_def entry1_def entry2_def stereo_def
        update_content_def string_eval path_eval)
  show ?thesis
    using a retranscribe_frame [of good_asr good_db 1 db0 initial_globals wav_store
        "\<lparr>rr_status = ''success'', rr_journal_id = 1, rr_text = ''hello'',
             rr_metadata = \<lparr>md_language = Some ''en'', md_model = ''GLM-ASR-Nano-2512'',
                            md_duration_ms = 1000, md_sample_rate = 16000, md_channels = 1\<rparr>\<rparr>"
        "\<lparr>rows = [entry1\<lparr>content := ''hello'', updated_at := 9\<rparr>, entry2], next_id = 3\<rparr>"
        "\<lparr>g_model = Some 2, g_processor = Some 1, from_pretrained_calls = 2, logged = [loaded_msg]\<rparr>"
        wav_store
        ascii "''x''" good_request "upload ''a.mp3''" "\<lparr>mc_content = ''x'', mc_audio_path = None\<rparr>"]
    by simp
qed

end
